theory Spec2Isabelle
  imports Main "HOL-Library.AList" "HOL-Library.FSet" "HOL-Library.Sublist"
begin

section \<open>Python strings and integers\<close>

text \<open>
  Python \<open>str\<close> values are modelled as \<open>string\<close> holding the UTF-8 bytes of the text. All
  texts that the program compares or searches are ASCII (\<open>:\<close>, \<open>/ask\<close>, \<open>@name\<close>, the
  decimal digits), and prefix, suffix and substring tests on UTF-8 bytes agree with the tests
  on code points.
\<close>

text \<open>The character of a decimal digit \<open>d < 10\<close>.\<close>

definition digit_char :: "nat \<Rightarrow> char" where
  "digit_char d = ''0123456789'' ! d"

text \<open>\<open>str(n)\<close> for a natural number: decimal digits, most significant first, no leading zero.\<close>

function str_nat :: "nat \<Rightarrow> string" where
  "str_nat n = (if n < 10 then [digit_char n] else str_nat (n div 10) @ [digit_char (n mod 10)])"
  by pat_completeness auto
termination
  by (relation "measure id") auto

declare str_nat.simps [simp del]

text \<open>\<open>str(i)\<close> for a Python \<open>int\<close>.\<close>

definition str_int :: "int \<Rightarrow> string" where
  "str_int i = (if i < 0 then CHR ''-'' # str_nat (nat (- i)) else str_nat (nat i))"

text \<open>\<open>s.startswith(p)\<close>, \<open>s.endswith(p)\<close> and \<open>sub in s\<close>.\<close>

definition startswith :: "string \<Rightarrow> string \<Rightarrow> bool" where
  "startswith s p = (take (length p) s = p)"

definition endswith :: "string \<Rightarrow> string \<Rightarrow> bool" where
  "endswith s p = (length p \<le> length s \<and> drop (length s - length p) s = p)"

fun contains :: "string \<Rightarrow> string \<Rightarrow> bool" where
  "contains sub [] = (sub = [])"
| "contains sub (c # cs) = (startswith (c # cs) sub \<or> contains sub cs)"

section \<open>Usage tracking\<close>

text \<open>
  \<open>UsageTracker.usage\<close> is a Python \<open>dict\<close> from keys \<open>"<chat_id>:<YYYY-MM-DD>"\<close> to counts. A
  \<open>dict\<close> keeps insertion order and has no duplicate keys, so it is an association list
  that is only changed through \<open>AList.update\<close> (overwrite in place, or append a new key).
  \<open>UsageTracker.pro_groups\<close> is a \<open>set\<close> of strings, a finite set.
  The two backing files are part of the state: what \<open>json.loads(read_text())\<close> would give
  for each of them.
\<close>

datatype 'a file_read = NoFile | Undecodable | Decoded 'a

type_synonym usage_table = "(string \<times> int) list"

record usage_tracker =
  usage :: usage_table
  pro_groups :: "string fset"
  usage_file :: "usage_table file_read"
  pro_file :: "string fset file_read"

text \<open>
  The exceptions (subclasses of \<open>Exception\<close>) that the modelled code can meet: a failed
  JSON decode, the failures of \<open>urlopen\<close> (no connection, a non-success status, a
  timeout), the failures of picking the reply out of a decoded response, and \<open>None.replace\<close>.
\<close>

datatype py_error =
  JSONDecodeError | URLError | HTTPError nat | TimeoutError
  | KeyError | IndexError | TypeError | AttributeError

text \<open>
  \<open>UsageTracker.__init__\<close> followed by \<open>_load\<close>: each field keeps its initial empty value
  when its file does not exist; \<open>json.loads\<close> raises \<open>JSONDecodeError\<close> on text that is not
  JSON, and nothing in \<open>_load\<close> or \<open>__init__\<close> catches it. The decoded value is restricted to
  the shapes that \<open>_save\<close> and \<open>add_pro\<close> write (a table of integer counts, a list of
  strings, read as the set of its elements).
\<close>

definition load :: "usage_table file_read \<Rightarrow> string fset file_read \<Rightarrow> py_error + usage_tracker" where
  "load f pf =
     (case f of
        Undecodable \<Rightarrow> Inl JSONDecodeError
      | _ \<Rightarrow>
        (let u = (case f of Decoded t \<Rightarrow> t | _ \<Rightarrow> []) in
         case pf of
           Undecodable \<Rightarrow> Inl JSONDecodeError
         | NoFile \<Rightarrow> Inr \<lparr>usage = u, pro_groups = {||}, usage_file = f, pro_file = pf\<rparr>
         | Decoded g \<Rightarrow> Inr \<lparr>usage = u, pro_groups = g, usage_file = f, pro_file = pf\<rparr>))"

text \<open>The tracker of a first start: no file exists yet.\<close>

definition fresh_tracker :: usage_tracker where
  "fresh_tracker = \<lparr>usage = [], pro_groups = {||}, usage_file = NoFile, pro_file = NoFile\<rparr>"

text \<open>\<open>_save\<close>: the whole counter table overwrites the usage file.\<close>

definition save :: "usage_tracker \<Rightarrow> usage_tracker" where
  "save t = t\<lparr>usage_file := Decoded (usage t)\<rparr>"

text \<open>\<open>self.usage.get(key, 0)\<close>.\<close>

definition usage_get :: "usage_table \<Rightarrow> string \<Rightarrow> int" where
  "usage_get u k = (case map_of u k of None \<Rightarrow> 0 | Some v \<Rightarrow> v)"

text \<open>The key \<open>f"{chat_id}:{today}"\<close>.\<close>

definition usage_key :: "int \<Rightarrow> string \<Rightarrow> string" where
  "usage_key chat_id today = str_int chat_id @ '':'' @ today"

text \<open>
  \<open>can_use\<close>. \<open>FREE_LIMIT\<close> is the module constant read from the environment at start-up and
  \<open>today\<close> is what \<open>_today()\<close> returns at the call; both are parameters.
\<close>

definition can_use :: "int \<Rightarrow> string \<Rightarrow> usage_tracker \<Rightarrow> int \<Rightarrow> bool \<times> int" where
  "can_use FREE_LIMIT today t chat_id =
     (if str_int chat_id |\<in>| pro_groups t then (True, 999)
      else
        (let key = usage_key chat_id today;
             used = usage_get (usage t) key;
             remaining = max 0 (FREE_LIMIT - used)
         in (0 < remaining, remaining)))"

text \<open>\<open>record\<close>: one more use under today's key, then the table is written out.\<close>

definition record_use :: "string \<Rightarrow> int \<Rightarrow> usage_tracker \<Rightarrow> usage_tracker" where
  "record_use today chat_id t =
     (let key = usage_key chat_id today
      in save (t\<lparr>usage := AList.update key (usage_get (usage t) key + 1) (usage t)\<rparr>))"

text \<open>\<open>add_pro\<close>: the group joins the pro set, and the set is written out.\<close>

definition add_pro :: "int \<Rightarrow> usage_tracker \<Rightarrow> usage_tracker" where
  "add_pro chat_id t =
     (let g = finsert (str_int chat_id) (pro_groups t)
      in t\<lparr>pro_groups := g, pro_file := Decoded g\<rparr>)"

record stats =
  active_groups_today :: nat
  total_messages :: int
  pro_groups_count :: nat

text \<open>\<open>get_stats\<close>: one pass over the keys, one over the values, and the size of the pro set.\<close>

definition get_stats :: "string \<Rightarrow> usage_tracker \<Rightarrow> stats" where
  "get_stats today t =
     \<lparr>active_groups_today = length (filter (\<lambda>k. endswith k ('':'' @ today)) (map fst (usage t))),
      total_messages = sum_list (map snd (usage t)),
      pro_groups_count = fcard (pro_groups t)\<rparr>"

text \<open>A run of \<open>record\<close> calls, each with the chat and the day of its call.\<close>

fun record_all :: "(int \<times> string) list \<Rightarrow> usage_tracker \<Rightarrow> usage_tracker" where
  "record_all [] t = t"
| "record_all ((c, d) # es) t = record_all es (record_use d c t)"

section \<open>AI responder\<close>

text \<open>A stored turn: \<open>{"role": "user", "name": n, "content": c}\<close> or
  \<open>{"role": "assistant", "content": c}\<close>.\<close>

datatype turn = UserTurn string string | AssistantTurn string

text \<open>An entry of the message list of a request: \<open>{"role": r, "content": c}\<close>.\<close>

record api_message =
  role :: string
  content :: string

text \<open>What \<open>urllib.request.Request(url, data, headers)\<close> carries; \<open>data\<close> is kept as the
  object given to \<open>json.dumps\<close>.\<close>

record http_request =
  url :: string
  headers :: "(string \<times> string) list"
  body_model :: string
  body_max_tokens :: nat
  body_system :: "string option"
  body_messages :: "api_message list"

text \<open>
  \<open>AIChat\<close>. \<open>memory\<close> is a \<open>defaultdict(list)\<close>: a chat that was never written reads as
  the empty list. Two traces record the effects of \<open>respond\<close> outside the object: the
  requests handed to \<open>urlopen\<close>, and the exceptions given to \<open>log.error\<close>.
\<close>

record ai_chat =
  provider :: string
  api_key :: string
  model :: string
  memory :: "int \<Rightarrow> turn list"
  requests :: "http_request list"
  error_log :: "py_error list"

text \<open>\<open>self.max_memory\<close>, set to 20 by \<open>__init__\<close> and never assigned again.\<close>

definition max_memory :: nat where
  "max_memory = 20"

text \<open>The slice \<open>xs[-n:]\<close> for \<open>n \<ge> 0\<close>; \<open>xs[-0:]\<close> is the whole list.\<close>

definition last_n :: "nat \<Rightarrow> 'a list \<Rightarrow> 'a list" where
  "last_n n xs = (if n = 0 then xs else drop (length xs - n) xs)"

text \<open>The UTF-8 bytes of the two emoji of the program's texts.\<close>

definition nerd_face :: string where
  "nerd_face = [char_of (0xF0::nat), char_of (0x9F::nat), char_of (0xA4::nat), char_of (0x93::nat)]"

definition warning_sign :: string where
  "warning_sign = [char_of (0xE2::nat), char_of (0x9A::nat), char_of (0xA0::nat),
                   char_of (0xEF::nat), char_of (0xB8::nat), char_of (0x8F::nat)]"

definition system_prompt :: "string \<Rightarrow> string" where
  "system_prompt group_name =
     ''You are Gendolf '' @ nerd_face @ '', a smart AI assistant in the Telegram group '' @ [CHR 0x27]
     @ group_name @ [CHR 0x27] @ ''. ''
     @ ''Be helpful, concise, and friendly. Answer questions, help with tasks, and participate ''
     @ ''in conversations naturally. Keep responses under 500 chars unless more detail is needed. ''
     @ ''Use emoji sparingly. Respond in the same language as the question.''"

definition unknown_provider_text :: string where
  "unknown_provider_text = ''Unknown AI provider configured.''"

definition fallback_text :: string where
  "fallback_text = warning_sign @ '' AI temporarily unavailable. Try again in a moment.''"

text \<open>One pass of the loop that builds \<open>messages\<close>.\<close>

fun format_turn :: "turn \<Rightarrow> api_message" where
  "format_turn (UserTurn n c) = \<lparr>role = ''user'', content = ''['' @ n @ '']: '' @ c\<rparr>"
| "format_turn (AssistantTurn c) = \<lparr>role = ''assistant'', content = c\<rparr>"

text \<open>The loop \<open>for m in self.memory[chat_id][-10:]\<close>.\<close>

definition build_messages :: "turn list \<Rightarrow> api_message list" where
  "build_messages mem = map format_turn (last_n 10 mem)"

text \<open>The request that \<open>_call_anthropic\<close> hands to \<open>urlopen\<close>.\<close>

definition anthropic_request :: "ai_chat \<Rightarrow> string \<Rightarrow> api_message list \<Rightarrow> http_request" where
  "anthropic_request a system messages =
     \<lparr>url = ''https://api.anthropic.com/v1/messages'',
      headers = [(''x-api-key'', api_key a), (''anthropic-version'', ''2023-06-01''),
                 (''content-type'', ''application/json'')],
      body_model = model a, body_max_tokens = 1000,
      body_system = Some system, body_messages = messages\<rparr>"

text \<open>The request that \<open>_call_openai\<close> hands to \<open>urlopen\<close>.\<close>

definition openai_request :: "ai_chat \<Rightarrow> string \<Rightarrow> api_message list \<Rightarrow> http_request" where
  "openai_request a system messages =
     \<lparr>url = ''https://api.openai.com/v1/chat/completions'',
      headers = [(''Authorization'', ''Bearer '' @ api_key a), (''Content-Type'', ''application/json'')],
      body_model = model a, body_max_tokens = 1000,
      body_system = None,
      body_messages = \<lparr>role = ''system'', content = system\<rparr> # messages\<rparr>"

text \<open>
  \<open>_call_anthropic\<close> and \<open>_call_openai\<close>: the request is issued, and what comes back is up
  to the network and the provider. The parameter \<open>net\<close> is the outcome of sending the request
  and picking the reply text out of the response: \<open>Inl e\<close> when any step raises \<open>e\<close>,
  \<open>Inr text\<close> otherwise.
\<close>

definition call_anthropic ::
  "py_error + string \<Rightarrow> ai_chat \<Rightarrow> string \<Rightarrow> api_message list \<Rightarrow> (py_error + string) \<times> ai_chat" where
  "call_anthropic net a system messages =
     (net, a\<lparr>requests := requests a @ [anthropic_request a system messages]\<rparr>)"

definition call_openai ::
  "py_error + string \<Rightarrow> ai_chat \<Rightarrow> string \<Rightarrow> api_message list \<Rightarrow> (py_error + string) \<times> ai_chat" where
  "call_openai net a system messages =
     (net, a\<lparr>requests := requests a @ [openai_request a system messages]\<rparr>)"

text \<open>The first three statements of \<open>respond\<close>: the user turn is stored, and the list is cut
  to its last \<open>max_memory\<close> entries when it has grown beyond that.\<close>

definition remember_user :: "turn list \<Rightarrow> string \<Rightarrow> string \<Rightarrow> turn list" where
  "remember_user mem user_name message =
     (let mem1 = mem @ [UserTurn user_name message]
      in if length mem1 > max_memory then last_n max_memory mem1 else mem1)"

text \<open>
  \<open>respond\<close>, returning the reply and the object afterwards. The \<open>try\<close> block is the
  provider dispatch followed by the append of the assistant turn; the \<open>except Exception\<close>
  clause logs and returns the fallback text.
\<close>

definition respond ::
  "py_error + string \<Rightarrow> ai_chat \<Rightarrow> int \<Rightarrow> string \<Rightarrow> string \<Rightarrow> string \<Rightarrow> string \<times> ai_chat" where
  "respond net a chat_id user_name message group_name =
     (let a1 = a\<lparr>memory := (memory a)(chat_id := remember_user (memory a chat_id) user_name message)\<rparr>;
          system = system_prompt group_name;
          messages = build_messages (memory a1 chat_id);
          (outcome, a2) =
             (if provider a1 = ''anthropic'' then call_anthropic net a1 system messages
              else if provider a1 = ''openai'' then call_openai net a1 system messages
              else (Inr unknown_provider_text, a1))
      in case outcome of
           Inr resp \<Rightarrow>
             (resp, a2\<lparr>memory := (memory a2)(chat_id := memory a2 chat_id @ [AssistantTurn resp])\<rparr>)
         | Inl e \<Rightarrow>
             (fallback_text, a2\<lparr>error_log := error_log a2 @ [e]\<rparr>))"

text \<open>A run of \<open>respond\<close> calls for one chat, each with the outcome of its provider call.\<close>

fun respond_all ::
  "(py_error + string) list \<Rightarrow> ai_chat \<Rightarrow> int \<Rightarrow> string \<Rightarrow> string \<Rightarrow> string \<Rightarrow> ai_chat" where
  "respond_all [] a chat_id user_name message group_name = a"
| "respond_all (net # nets) a chat_id user_name message group_name =
     respond_all nets (snd (respond net a chat_id user_name message group_name))
       chat_id user_name message group_name"

text \<open>\<open>AIChat(provider, api_key, model)\<close>.\<close>

definition new_ai_chat :: "string \<Rightarrow> string \<Rightarrow> string \<Rightarrow> ai_chat" where
  "new_ai_chat p k m =
     \<lparr>provider = p, api_key = k, model = m, memory = (\<lambda>_. []), requests = [], error_log = []\<rparr>"

section \<open>Message handlers\<close>

text \<open>\<open>s.replace(old, new, 1)\<close>: the first occurrence, searched from the left.\<close>

fun replace_first :: "string \<Rightarrow> string \<Rightarrow> string \<Rightarrow> string" where
  "replace_first old new [] = (if old = [] then new else [])"
| "replace_first old new (c # cs) =
     (if startswith (c # cs) old then new @ drop (length old) (c # cs)
      else c # replace_first old new cs)"

text \<open>\<open>s.replace(old, new)\<close>: every occurrence, left to right, without overlap. With an empty
  \<open>old\<close> Python puts \<open>new\<close> before every character and at the end.\<close>

function replace_all :: "string \<Rightarrow> string \<Rightarrow> string \<Rightarrow> string" where
  "replace_all old new s =
     (if old = [] then new @ concat (map (\<lambda>c. c # new) s)
      else if s = [] then []
      else if startswith s old then new @ replace_all old new (drop (length old) s)
      else hd s # replace_all old new (tl s))"
  by pat_completeness auto
termination
  by (relation "measure (\<lambda>(old, new, s). length s)") auto

declare replace_all.simps [simp del]

text \<open>
  The code points that \<open>str.strip()\<close> removes, those with \<open>str.isspace\<close>: U+0009 to U+000D,
  U+001C to U+0020, U+0085, U+00A0, U+1680, U+2000 to U+200A, U+2028, U+2029, U+202F, U+205F
  and U+3000, each as its UTF-8 bytes.
\<close>

definition whitespace :: "string list" where
  "whitespace =
     [[CHR 0x09], [CHR 0x0A], [CHR 0x0B], [CHR 0x0C], [CHR 0x0D],
      [CHR 0x1C], [CHR 0x1D], [CHR 0x1E], [CHR 0x1F], [CHR 0x20],
      [CHR 0xC2, CHR 0x85], [CHR 0xC2, CHR 0xA0],
      [CHR 0xE1, CHR 0x9A, CHR 0x80],
      [CHR 0xE2, CHR 0x80, CHR 0x80], [CHR 0xE2, CHR 0x80, CHR 0x81], [CHR 0xE2, CHR 0x80, CHR 0x82],
      [CHR 0xE2, CHR 0x80, CHR 0x83], [CHR 0xE2, CHR 0x80, CHR 0x84], [CHR 0xE2, CHR 0x80, CHR 0x85],
      [CHR 0xE2, CHR 0x80, CHR 0x86], [CHR 0xE2, CHR 0x80, CHR 0x87], [CHR 0xE2, CHR 0x80, CHR 0x88],
      [CHR 0xE2, CHR 0x80, CHR 0x89], [CHR 0xE2, CHR 0x80, CHR 0x8A],
      [CHR 0xE2, CHR 0x80, CHR 0xA8], [CHR 0xE2, CHR 0x80, CHR 0xA9], [CHR 0xE2, CHR 0x80, CHR 0xAF],
      [CHR 0xE2, CHR 0x81, CHR 0x9F],
      [CHR 0xE3, CHR 0x80, CHR 0x80]]"

text \<open>Removing, from the front, every leading occurrence of a byte sequence of the table \<open>ws\<close>.\<close>

function strip_front :: "string list \<Rightarrow> string \<Rightarrow> string" where
  "strip_front ws s =
     (case find (\<lambda>w. w \<noteq> [] \<and> startswith s w) ws of
        None \<Rightarrow> s
      | Some w \<Rightarrow> strip_front ws (drop (length w) s))"
  by pat_completeness auto
termination
proof (relation "measure (\<lambda>(ws, s). length s)")
  show "wf (measure (\<lambda>(ws, s). length s))" by simp
next
  fix ws :: "string list" and s w :: string
  assume "find (\<lambda>w. w \<noteq> [] \<and> startswith s w) ws = Some w"
  then have w: "w \<noteq> []" and p: "take (length w) s = w"
    by (auto simp: find_Some_iff startswith_def)
  from w p have "s \<noteq> []" by auto
  with w show "((ws, drop (length w) s), (ws, s)) \<in> measure (\<lambda>(ws, s). length s)"
    by simp
qed

declare strip_front.simps [simp del]

text \<open>
  \<open>s.strip()\<close>: whitespace code points are removed from both ends. In well-formed UTF-8 a
  byte below 128 is a code point of its own and a lead byte starts exactly one code point, so
  a match of a table entry at either end of the bytes is a whitespace code point at that end
  of the text.
\<close>

definition strip :: "string \<Rightarrow> string" where
  "strip s = rev (strip_front (map rev whitespace) (rev (strip_front whitespace s)))"

text \<open>\<open>x or default\<close> for a string that may be \<open>None\<close>.\<close>

definition or_default :: "string option \<Rightarrow> string \<Rightarrow> string" where
  "or_default x d = (case x of None \<Rightarrow> d | Some v \<Rightarrow> if v = [] then d else v)"

text \<open>The fields of an incoming \<open>Message\<close> that the handlers read. \<open>msg_reply_to_id\<close> is the
  id of the author of the message replied to, when both exist.\<close>

record message =
  msg_text :: "string option"
  msg_chat_id :: int
  msg_chat_type :: string
  msg_chat_title :: "string option"
  msg_full_name :: string
  msg_reply_to_id :: "int option"

text \<open>What a handler sends: \<open>message.answer(text)\<close> or \<open>message.reply(text)\<close>, with the chat.\<close>

datatype outgoing = Answer int string | Reply int string

text \<open>The module's global objects, and the messages sent so far.\<close>

record world =
  tracker :: usage_tracker
  ai :: ai_chat
  outbox :: "outgoing list"

text \<open>
  What a handler run takes from outside: the configured \<open>FREE_LIMIT\<close>, the UTC day at the
  \<open>can_use\<close> call and at the \<open>record\<close> call, the result of \<open>bot.me()\<close>, and the outcome of
  the provider call.
\<close>

record env =
  free_limit :: int
  today_at_check :: string
  today_at_record :: string
  bot_username :: "string option"
  bot_id :: int
  provider_outcome :: "py_error + string"

definition ask_limit_notice :: "int \<Rightarrow> string" where
  "ask_limit_notice FREE_LIMIT =
     warning_sign @ '' Daily free limit ('' @ str_int FREE_LIMIT @ '' messages) reached.'' @ [char_of (10::nat)]
     @ ''Upgrade to Pro for unlimited: /upgrade''"

definition private_limit_notice :: string where
  "private_limit_notice = warning_sign @ '' Daily limit reached. /upgrade for unlimited.''"

definition group_limit_notice :: "int \<Rightarrow> string" where
  "group_limit_notice FREE_LIMIT =
     warning_sign @ '' Daily free limit ('' @ str_int FREE_LIMIT @ '') reached for this group.'' @ [char_of (10::nat)]
     @ ''Admin can upgrade: /upgrade''"

text \<open>\<open>cmd_ask\<close>. \<open>message.text.replace\<close> raises \<open>AttributeError\<close> when the text is \<open>None\<close>.\<close>

definition cmd_ask :: "env \<Rightarrow> world \<Rightarrow> message \<Rightarrow> py_error + world" where
  "cmd_ask e w m =
     (case msg_text m of
        None \<Rightarrow> Inl AttributeError
      | Some txt \<Rightarrow>
        (let question = strip (replace_first ''/ask'' [] txt) in
         if question = [] then
           Inr (w\<lparr>outbox := outbox w @ [Answer (msg_chat_id m) ''Usage: /ask <your question>'']\<rparr>)
         else
           (let (allowed, remaining) =
                  can_use (free_limit e) (today_at_check e) (tracker w) (msg_chat_id m) in
            if \<not> allowed then
              Inr (w\<lparr>outbox := outbox w @ [Answer (msg_chat_id m) (ask_limit_notice (free_limit e))]\<rparr>)
            else
              (let t = record_use (today_at_record e) (msg_chat_id m) (tracker w);
                   user_name = or_default (Some (msg_full_name m)) ''User'';
                   group_name = or_default (msg_chat_title m) ''Chat'';
                   (response, a) =
                      respond (provider_outcome e) (ai w) (msg_chat_id m) user_name question group_name
               in Inr (w\<lparr>tracker := t, ai := a,
                         outbox := outbox w @ [Reply (msg_chat_id m) response]\<rparr>)))))"

text \<open>\<open>handle_message\<close>.\<close>

definition handle_message :: "env \<Rightarrow> world \<Rightarrow> message \<Rightarrow> world" where
  "handle_message e w m =
     (case msg_text m of
        None \<Rightarrow> w
      | Some txt \<Rightarrow>
        if txt = [] then w
        else if msg_chat_type m = ''private'' then
          (if \<not> startswith txt ''/'' then
             (let (allowed, remaining) =
                    can_use (free_limit e) (today_at_check e) (tracker w) (msg_chat_id m) in
              if \<not> allowed then
                w\<lparr>outbox := outbox w @ [Answer (msg_chat_id m) private_limit_notice]\<rparr>
              else
                (let t = record_use (today_at_record e) (msg_chat_id m) (tracker w);
                     (response, a) =
                        respond (provider_outcome e) (ai w) (msg_chat_id m)
                          (or_default (Some (msg_full_name m)) ''User'') txt ''Private Chat''
                 in w\<lparr>tracker := t, ai := a,
                      outbox := outbox w @ [Reply (msg_chat_id m) response]\<rparr>))
           else w)
        else
          (let at_name = ''@'' @ (case bot_username e of None \<Rightarrow> ''None'' | Some u \<Rightarrow> u);
               is_mentioned =
                 (case bot_username e of None \<Rightarrow> False | Some u \<Rightarrow> u \<noteq> [] \<and> contains at_name txt);
               is_reply = (msg_reply_to_id m = Some (bot_id e))
           in
           if \<not> is_mentioned \<and> \<not> is_reply then w
           else
             (let (allowed, remaining) =
                    can_use (free_limit e) (today_at_check e) (tracker w) (msg_chat_id m) in
              if \<not> allowed then
                w\<lparr>outbox := outbox w @ [Reply (msg_chat_id m) (group_limit_notice (free_limit e))]\<rparr>
              else
                (let t = record_use (today_at_record e) (msg_chat_id m) (tracker w);
                     text1 = strip (replace_all at_name [] txt);
                     text2 = (if text1 = [] then ''Hi!'' else text1);
                     user_name = or_default (Some (msg_full_name m)) ''User'';
                     group_name = or_default (msg_chat_title m) ''Group'';
                     (response, a) =
                        respond (provider_outcome e) (ai w) (msg_chat_id m) user_name text2 group_name
                 in w\<lparr>tracker := t, ai := a,
                      outbox := outbox w @ [Reply (msg_chat_id m) response]\<rparr>))))"

section \<open>Properties\<close>

lemma digit_char_inj: "a < 10 \<Longrightarrow> b < 10 \<Longrightarrow> digit_char a = digit_char b \<Longrightarrow> a = b"
proof -
  assume a: "a < 10" and b: "b < 10" and e: "digit_char a = digit_char b"
  have "distinct ''0123456789''" by simp
  moreover have "a < length ''0123456789''" "b < length ''0123456789''" using a b by simp_all
  ultimately show "a = b"
    using e unfolding digit_char_def by (simp only: nth_eq_iff_index_eq)
qed

lemma digit_char_in: "d < 10 \<Longrightarrow> digit_char d \<in> set ''0123456789''"
  unfolding digit_char_def by (rule nth_mem) simp

lemma digit_char_not_colon: "d < 10 \<Longrightarrow> digit_char d \<noteq> CHR '':''"
  using digit_char_in[of d] by auto

lemma digit_char_not_minus: "d < 10 \<Longrightarrow> digit_char d \<noteq> CHR ''-''"
  using digit_char_in[of d] by auto

lemma str_nat_nonempty: "str_nat n \<noteq> []"
  by (subst str_nat.simps) simp

lemma str_nat_chars: "c \<in> set (str_nat n) \<Longrightarrow> \<exists>d<10. c = digit_char d"
proof (induction n rule: str_nat.induct)
  case (1 n)
  show ?case
  proof (cases "n < 10")
    case True
    with "1.prems" show ?thesis by (subst (asm) str_nat.simps) auto
  next
    case False
    with "1.prems" have "c \<in> set (str_nat (n div 10)) \<or> c = digit_char (n mod 10)"
      by (subst (asm) str_nat.simps) auto
    then show ?thesis
    proof
      assume "c \<in> set (str_nat (n div 10))"
      with "1.IH" False show ?thesis by simp
    next
      assume "c = digit_char (n mod 10)"
      moreover have "n mod 10 < 10" by simp
      ultimately show ?thesis by blast
    qed
  qed
qed

lemma str_nat_length_one: "length (str_nat n) = 1 \<longleftrightarrow> n < 10"
proof (cases "n < 10")
  case True
  then show ?thesis by (subst str_nat.simps) simp
next
  case False
  have "str_nat (n div 10) \<noteq> []" by (rule str_nat_nonempty)
  then have "length (str_nat (n div 10)) \<noteq> 0" by simp
  with False show ?thesis by (subst str_nat.simps) simp
qed

lemma str_nat_inj: "str_nat m = str_nat n \<Longrightarrow> m = n"
proof (induction m arbitrary: n rule: str_nat.induct)
  case (1 m)
  show ?case
  proof (cases "m < 10")
    case True
    then have "length (str_nat m) = 1" using str_nat_length_one[of m] by blast
    with "1.prems" have n: "n < 10" using str_nat_length_one[of n] by metis
    from True n "1.prems" have "digit_char m = digit_char n"
      by (simp add: str_nat.simps[of m] str_nat.simps[of n])
    with True n show ?thesis by (rule digit_char_inj)
  next
    case False
    then have "length (str_nat m) \<noteq> 1" using str_nat_length_one[of m] by blast
    with "1.prems" have n: "\<not> n < 10" using str_nat_length_one[of n] by metis
    from False n "1.prems"
    have eq: "str_nat (m div 10) @ [digit_char (m mod 10)] = str_nat (n div 10) @ [digit_char (n mod 10)]"
      by (simp add: str_nat.simps[of m] str_nat.simps[of n])
    then have "str_nat (m div 10) = str_nat (n div 10)" and d: "digit_char (m mod 10) = digit_char (n mod 10)"
      by simp_all
    with "1.IH" False have q: "m div 10 = n div 10" by simp
    have "m mod 10 = n mod 10" by (rule digit_char_inj[OF _ _ d]) simp_all
    with q show ?thesis by (metis div_mult_mod_eq)
  qed
qed

lemma str_int_inj: "str_int a = str_int b \<Longrightarrow> a = b"
proof -
  assume eq: "str_int a = str_int b"
  have nom: "\<And>n. hd (str_nat n) \<noteq> CHR ''-''"
  proof -
    fix n
    have "hd (str_nat n) \<in> set (str_nat n)" by (simp add: str_nat_nonempty)
    then obtain d where "d < 10" "hd (str_nat n) = digit_char d" using str_nat_chars by blast
    then show "hd (str_nat n) \<noteq> CHR ''-''" using digit_char_not_minus by simp
  qed
  show ?thesis
  proof (cases "a < 0")
    case True
    show ?thesis
    proof (cases "b < 0")
      case b: True
      with True eq have "str_nat (nat (- a)) = str_nat (nat (- b))" by (simp add: str_int_def)
      then have "nat (- a) = nat (- b)" by (rule str_nat_inj)
      with True b show ?thesis by simp
    next
      case b: False
      with True eq have "CHR ''-'' # str_nat (nat (- a)) = str_nat (nat b)" by (simp add: str_int_def)
      then have "hd (str_nat (nat b)) = CHR ''-''" by (metis list.sel(1))
      with nom show ?thesis by blast
    qed
  next
    case False
    show ?thesis
    proof (cases "b < 0")
      case b: True
      with False eq have "str_nat (nat a) = CHR ''-'' # str_nat (nat (- b))" by (simp add: str_int_def)
      then have "hd (str_nat (nat a)) = CHR ''-''" by simp
      with nom show ?thesis by blast
    next
      case b: False
      with False eq have "str_nat (nat a) = str_nat (nat b)" by (simp add: str_int_def)
      then have "nat a = nat b" by (rule str_nat_inj)
      with False b show ?thesis by simp
    qed
  qed
qed

lemma str_int_no_colon: "CHR '':'' \<notin> set (str_int i)"
proof
  assume "CHR '':'' \<in> set (str_int i)"
  then have "\<exists>n. CHR '':'' \<in> set (str_nat n)"
    by (auto simp: str_int_def split: if_splits)
  then obtain n d where "d < 10" "CHR '':'' = digit_char d" using str_nat_chars by blast
  then show False using digit_char_not_colon by metis
qed

lemma split_at_first:
  "a \<notin> set xs \<Longrightarrow> a \<notin> set xs' \<Longrightarrow> xs @ a # ys = xs' @ a # ys' \<Longrightarrow> xs = xs' \<and> ys = ys'"
proof (induction xs arbitrary: xs')
  case Nil
  then show ?case by (cases xs') auto
next
  case (Cons x xs)
  then show ?case by (cases xs') auto
qed

lemma usage_key_inj: "usage_key c d = usage_key c' d' \<longleftrightarrow> c = c' \<and> d = d'"
proof
  assume "usage_key c d = usage_key c' d'"
  then have "str_int c @ CHR '':'' # d = str_int c' @ CHR '':'' # d'"
    by (simp add: usage_key_def)
  then have "str_int c = str_int c' \<and> d = d'"
    using split_at_first[OF str_int_no_colon str_int_no_colon] by blast
  then show "c = c' \<and> d = d'" using str_int_inj by blast
qed simp

lemma usage_get_update:
  "usage_get (AList.update k v u) k' = (if k' = k then v else usage_get u k')"
  by (simp add: usage_get_def update_conv')

lemma usage_record_use:
  "usage_get (usage (record_use d c t)) k =
     (if k = usage_key c d then usage_get (usage t) k + 1 else usage_get (usage t) k)"
  by (simp add: record_use_def save_def Let_def usage_get_update)

lemma map_of_record_use_other:
  "k \<noteq> usage_key c d \<Longrightarrow> map_of (usage (record_use d c t)) k = map_of (usage t) k"
  by (simp add: record_use_def save_def Let_def update_conv')

lemma pro_groups_record_use: "pro_groups (record_use d c t) = pro_groups t"
  by (simp add: record_use_def save_def Let_def)

lemma pro_groups_record_all: "pro_groups (record_all es t) = pro_groups t"
  by (induction es arbitrary: t) (auto simp: pro_groups_record_use)

lemma usage_record_all:
  "usage_get (usage (record_all es t)) (usage_key c d) =
     usage_get (usage t) (usage_key c d) + int (count_list es (c, d))"
proof (induction es arbitrary: t)
  case Nil
  then show ?case by simp
next
  case (Cons e es)
  obtain c' d' where e: "e = (c', d')" by (cases e)
  show ?case
    by (simp add: e Cons.IH usage_record_use usage_key_inj)
qed

lemma map_of_record_all_other:
  "\<forall>e \<in> set es. usage_key (fst e) (snd e) \<noteq> k \<Longrightarrow> map_of (usage (record_all es t)) k = map_of (usage t) k"
proof (induction es arbitrary: t)
  case Nil
  then show ?case by simp
next
  case (Cons e es)
  obtain c' d' where e: "e = (c', d')" by (cases e)
  with Cons.prems have "k \<noteq> usage_key c' d'" by auto
  with Cons show ?case by (simp add: e map_of_record_use_other)
qed

lemma distinct_record_use:
  "distinct (map fst (usage t)) \<Longrightarrow> distinct (map fst (usage (record_use d c t)))"
  by (simp add: record_use_def save_def Let_def distinct_update)

lemma count_list_replicate: "count_list (replicate n x) x = n"
  by (induction n) auto

lemma endswith_suffix: "endswith k p \<longleftrightarrow> suffix p k"
proof
  assume "endswith k p"
  then have "k = take (length k - length p) k @ p"
    by (metis append_take_drop_id endswith_def)
  then show "suffix p k" by (metis suffixI)
next
  assume "suffix p k"
  then obtain zs where "k = zs @ p" by (auto simp: suffix_def)
  then show "endswith k p" by (simp add: endswith_def)
qed

lemma sum_list_snd_distinct:
  "distinct (map fst u) \<Longrightarrow> sum_list (map snd u) = (\<Sum>k \<in> dom (map_of u). the (map_of u k))"
proof (induction u)
  case Nil
  then show ?case by simp
next
  case (Cons p u)
  obtain k v where p: "p = (k, v)" by (cases p)
  from Cons.prems p have nk: "k \<notin> dom (map_of u)" and du: "distinct (map fst u)"
    by (auto simp: dom_map_of_conv_image_fst)
  have fin: "finite (dom (map_of u))" by (rule finite_dom_map_of)
  have "(\<Sum>x \<in> dom (map_of (p # u)). the (map_of (p # u) x))
        = (\<Sum>x \<in> insert k (dom (map_of u)). the (map_of (p # u) x))"
    by (simp add: p)
  also have "\<dots> = v + (\<Sum>x \<in> dom (map_of u). the (map_of (p # u) x))"
    using nk fin by (simp add: p)
  also have "(\<Sum>x \<in> dom (map_of u). the (map_of (p # u) x)) = (\<Sum>x \<in> dom (map_of u). the (map_of u x))"
    using nk by (intro sum.cong) (auto simp: p)
  finally show ?case using Cons.IH[OF du] by (simp add: p)
qed

text \<open>
  Claim C1. A group that is not in the pro set starts the day with no recorded use. After any
  run of \<open>record\<close> calls (other groups and other days may be mixed in), \<open>can_use\<close> for that
  group and day returns \<open>remaining = max(0, FREE_LIMIT - n)\<close> and \<open>allowed = (n < FREE_LIMIT)\<close>,
  where \<open>n\<close> is the number of calls for this group on this day. When \<open>n\<close> is exactly
  \<open>FREE_LIMIT\<close> the answer is \<open>(False, 0)\<close>: the next attempt is rejected.
\<close>

theorem can_use_after_records:
  assumes "str_int chat_id |\<notin>| pro_groups t"
    and "usage_get (usage t) (usage_key chat_id today) = 0"
  shows "can_use FREE_LIMIT today (record_all es t) chat_id =
           (int (count_list es (chat_id, today)) < FREE_LIMIT,
            max 0 (FREE_LIMIT - int (count_list es (chat_id, today))))
         \<and> (int (count_list es (chat_id, today)) = FREE_LIMIT \<longrightarrow>
              can_use FREE_LIMIT today (record_all es t) chat_id = (False, 0))"
  using assms
  by (auto simp: can_use_def Let_def pro_groups_record_all usage_record_all)

theorem can_use_after_records_witness:
  "str_int 7 |\<notin>| pro_groups fresh_tracker
   \<and> usage_get (usage fresh_tracker) (usage_key 7 ''2024-05-01'') = 0
   \<and> can_use 2 ''2024-05-01''
        (record_all [(7, ''2024-05-01''), (8, ''2024-05-01''), (7, ''2024-05-01'')] fresh_tracker) 7
      = (False, 0)"
proof -
  have h1: "str_int 7 |\<notin>| pro_groups fresh_tracker" by (simp add: fresh_tracker_def)
  have h2: "usage_get (usage fresh_tracker) (usage_key 7 ''2024-05-01'') = 0"
    by (simp add: fresh_tracker_def usage_get_def)
  show ?thesis
    using h1 h2 can_use_after_records [OF h1 h2, of 2 "[(7, ''2024-05-01''), (8, ''2024-05-01''), (7, ''2024-05-01'')]"]
    by simp
qed

text \<open>
  Claim C2. For a group in the pro set \<open>can_use\<close> returns \<open>(True, 999)\<close> whatever the
  counters hold: the pro test comes first. In particular \<open>can_use\<close> returns \<open>(True, 999)\<close>
  right after \<open>add_pro\<close>, also when uses were recorded before or after the upgrade.
\<close>

theorem pro_group_always_allowed:
  "(str_int chat_id |\<in>| pro_groups t \<longrightarrow> can_use FREE_LIMIT today t chat_id = (True, 999))
   \<and> can_use FREE_LIMIT today (add_pro chat_id t) chat_id = (True, 999)
   \<and> can_use FREE_LIMIT today (record_all es (add_pro chat_id t)) chat_id = (True, 999)
   \<and> can_use FREE_LIMIT today (add_pro chat_id (record_all es t)) chat_id = (True, 999)"
  by (simp add: can_use_def add_pro_def Let_def pro_groups_record_all)

theorem pro_group_always_allowed_witness:
  "str_int 7 |\<in>| pro_groups (add_pro 7 fresh_tracker)
   \<and> can_use 2 ''2024-05-01'' (add_pro 7 fresh_tracker) 7 = (True, 999)
   \<and> can_use 2 ''2024-05-01''
        (add_pro 7 (record_all [(7, ''2024-05-01''), (7, ''2024-05-01'')] fresh_tracker)) 7 = (True, 999)"
  using pro_group_always_allowed [of 7 "add_pro 7 fresh_tracker" 2 "''2024-05-01''" "[(7, ''2024-05-01''), (7, ''2024-05-01'')]"]
    pro_group_always_allowed [of 7 "fresh_tracker" 2 "''2024-05-01''" "[(7, ''2024-05-01''), (7, ''2024-05-01'')]"]
  by (simp add: add_pro_def Let_def)

text \<open>
  Claim C5. From a counter that reads zero for a group and a day, \<open>n\<close> calls of \<open>record\<close> for
  that group on that day leave exactly \<open>n\<close> under the key of that group and day, every other
  key keeps its entry, and \<open>can_use\<close> on any other day answers as before the calls: for a
  group outside the pro set with nothing recorded on that other day, the full quota.
\<close>

theorem record_counts_per_day:
  assumes "usage_get (usage t) (usage_key chat_id day) = 0"
  shows "usage_get (usage (record_all (replicate n (chat_id, day)) t)) (usage_key chat_id day) = int n
       \<and> (k \<noteq> usage_key chat_id day \<longrightarrow>
            map_of (usage (record_all (replicate n (chat_id, day)) t)) k = map_of (usage t) k)
       \<and> (day' \<noteq> day \<longrightarrow>
            can_use FREE_LIMIT day' (record_all (replicate n (chat_id, day)) t) chat_id
              = can_use FREE_LIMIT day' t chat_id)
       \<and> (day' \<noteq> day \<and> str_int chat_id |\<notin>| pro_groups t
               \<and> usage_get (usage t) (usage_key chat_id day') = 0 \<longrightarrow>
            can_use FREE_LIMIT day' (record_all (replicate n (chat_id, day)) t) chat_id
              = (0 < FREE_LIMIT, max 0 FREE_LIMIT))"
proof -
  let ?t = "record_all (replicate n (chat_id, day)) t"
  have a: "usage_get (usage ?t) (usage_key chat_id day) = int n"
    using assms by (simp add: usage_record_all count_list_replicate)
  have b: "k \<noteq> usage_key chat_id day \<longrightarrow> map_of (usage ?t) k = map_of (usage t) k"
    by (auto intro!: map_of_record_all_other)
  have c: "day' \<noteq> day \<Longrightarrow>
      usage_get (usage ?t) (usage_key chat_id day') = usage_get (usage t) (usage_key chat_id day')"
    by (simp add: usage_record_all)
  have d: "day' \<noteq> day \<longrightarrow> can_use FREE_LIMIT day' ?t chat_id = can_use FREE_LIMIT day' t chat_id"
    by (simp add: can_use_def Let_def pro_groups_record_all c)
  have e: "day' \<noteq> day \<and> str_int chat_id |\<notin>| pro_groups t
               \<and> usage_get (usage t) (usage_key chat_id day') = 0 \<longrightarrow>
            can_use FREE_LIMIT day' ?t chat_id = (0 < FREE_LIMIT, max 0 FREE_LIMIT)"
    by (auto simp: can_use_def Let_def pro_groups_record_all c)
  from a b d e show ?thesis by blast
qed

theorem record_counts_per_day_witness:
  "usage_get (usage fresh_tracker) (usage_key 7 ''2024-05-01'') = 0
   \<and> usage_get (usage (record_all (replicate 3 (7, ''2024-05-01'')) fresh_tracker)) (usage_key 7 ''2024-05-01'') = 3
   \<and> ''2024-05-02'' \<noteq> ''2024-05-01''
   \<and> str_int 7 |\<notin>| pro_groups fresh_tracker
   \<and> usage_get (usage fresh_tracker) (usage_key 7 ''2024-05-02'') = 0
   \<and> can_use 50 ''2024-05-02'' (record_all (replicate 3 (7, ''2024-05-01'')) fresh_tracker) 7 = (True, 50)"
proof -
  have h: "usage_get (usage fresh_tracker) (usage_key 7 ''2024-05-01'') = 0"
    by (simp add: fresh_tracker_def usage_get_def)
  have h2: "usage_get (usage fresh_tracker) (usage_key 7 ''2024-05-02'') = 0"
    by (simp add: fresh_tracker_def usage_get_def)
  have h3: "str_int 7 |\<notin>| pro_groups fresh_tracker" by (simp add: fresh_tracker_def)
  have ne: "''2024-05-02'' \<noteq> ''2024-05-01''" by simp
  note r = record_counts_per_day [OF h, of 3 "usage_key 7 ''2024-05-02''" "''2024-05-02''" 50]
  from r have c1: "usage_get (usage (record_all (replicate 3 (7, ''2024-05-01'')) fresh_tracker))
      (usage_key 7 ''2024-05-01'') = 3" by simp
  from r ne h2 h3
  have c2: "can_use 50 ''2024-05-02'' (record_all (replicate 3 (7, ''2024-05-01'')) fresh_tracker) 7
      = (0 < (50::int), max 0 50)" by blast
  show ?thesis using h h2 h3 ne c1 c2 by simp
qed

text \<open>
  Claim C8. On a counter table without duplicate keys (a \<open>dict\<close>), \<open>get_stats\<close> returns the
  number of distinct keys that end in \<open>":" + today\<close>, the sum of the values of all keys of
  all days, and the number of elements of the pro set.
\<close>

theorem get_stats_meaning:
  assumes "distinct (map fst (usage t))"
  shows "active_groups_today (get_stats today t)
           = card {k \<in> dom (map_of (usage t)). suffix ('':'' @ today) k}
       \<and> total_messages (get_stats today t)
           = (\<Sum>k \<in> dom (map_of (usage t)). the (map_of (usage t) k))
       \<and> pro_groups_count (get_stats today t) = card (fset (pro_groups t))"
proof -
  have "{k \<in> dom (map_of (usage t)). suffix ('':'' @ today) k}
        = {k. endswith k ('':'' @ today)} \<inter> set (map fst (usage t))"
    by (auto simp: endswith_suffix dom_map_of_conv_image_fst)
  then have "active_groups_today (get_stats today t)
           = card {k \<in> dom (map_of (usage t)). suffix ('':'' @ today) k}"
    using distinct_length_filter[OF assms, of "\<lambda>k. endswith k ('':'' @ today)"]
    by (simp only: get_stats_def stats.simps)
  moreover have "total_messages (get_stats today t)
           = (\<Sum>k \<in> dom (map_of (usage t)). the (map_of (usage t) k))"
    using assms by (simp add: get_stats_def sum_list_snd_distinct)
  moreover have "pro_groups_count (get_stats today t) = card (fset (pro_groups t))"
    by (simp add: get_stats_def fcard.rep_eq)
  ultimately show ?thesis by blast
qed

theorem get_stats_meaning_witness:
  "distinct (map fst (usage (record_all [(7, ''2024-05-01''), (8, ''2024-05-01''), (7, ''2024-04-30'')] fresh_tracker)))
   \<and> active_groups_today (get_stats ''2024-05-01''
        (record_all [(7, ''2024-05-01''), (8, ''2024-05-01''), (7, ''2024-04-30'')] fresh_tracker)) = 2
   \<and> card {k \<in> dom (map_of (usage (record_all [(7, ''2024-05-01''), (8, ''2024-05-01''), (7, ''2024-04-30'')] fresh_tracker))).
        suffix ('':'' @ ''2024-05-01'') k} = 2"
proof -
  let ?t = "record_all [(7, ''2024-05-01''), (8, ''2024-05-01''), (7, ''2024-04-30'')] fresh_tracker"
  have u: "usage ?t = [(''7:2024-05-01'', 1), (''8:2024-05-01'', 1), (''7:2024-04-30'', 1)]"
    by (simp add: fresh_tracker_def record_use_def save_def Let_def usage_key_def str_int_def
        str_nat.simps digit_char_def usage_get_def)
  have d: "distinct (map fst (usage ?t))" unfolding u by simp
  have a: "active_groups_today (get_stats ''2024-05-01'' ?t) = 2"
    unfolding get_stats_def u by (simp add: endswith_def)
  show ?thesis
    using d a get_stats_meaning [OF d, of "''2024-05-01''"] by simp
qed

text \<open>
  Claim C7, as stated, fails: when the usage file exists and its text is not JSON, loading
  raises \<open>JSONDecodeError\<close> and does not behave as for a missing file.
\<close>

theorem load_malformed_raises:
  "load Undecodable NoFile = Inl JSONDecodeError \<and> load Undecodable NoFile \<noteq> load NoFile NoFile"
  by (simp add: load_def)

text \<open>
  Claim C7, amended. With both files missing the load succeeds with an empty counter table and
  an empty pro set. The load raises exactly when one of the existing files cannot be decoded,
  and the error is \<open>JSONDecodeError\<close>. When it succeeds, each field holds the decoded value of
  its file, or stays empty when its file is missing.
\<close>

theorem load_outcome:
  "load NoFile NoFile = Inr \<lparr>usage = [], pro_groups = {||}, usage_file = NoFile, pro_file = NoFile\<rparr>
   \<and> (isl (load f pf) \<longleftrightarrow> f = Undecodable \<or> pf = Undecodable)
   \<and> (f = Undecodable \<or> pf = Undecodable \<longrightarrow> load f pf = Inl JSONDecodeError)
   \<and> (\<forall>t. load f pf = Inr t \<longrightarrow>
        usage t = (case f of Decoded u \<Rightarrow> u | _ \<Rightarrow> [])
        \<and> pro_groups t = (case pf of Decoded g \<Rightarrow> g | _ \<Rightarrow> {||}))"
  by (cases f; cases pf) (auto simp: load_def)

theorem load_outcome_witness:
  "load (Decoded [(''7:2024-05-01'', 3)]) NoFile
     = Inr \<lparr>usage = [(''7:2024-05-01'', 3)], pro_groups = {||},
            usage_file = Decoded [(''7:2024-05-01'', 3)], pro_file = NoFile\<rparr>
   \<and> usage (projr (load (Decoded [(''7:2024-05-01'', 3)]) NoFile)) = [(''7:2024-05-01'', 3)]
   \<and> load NoFile Undecodable = Inl JSONDecodeError"
  using load_outcome [of "Decoded [(''7:2024-05-01'', 3)]" NoFile] load_outcome [of NoFile Undecodable]
  by (simp add: load_def)

lemma remember_user_drop:
  "remember_user mem u m = drop (length mem + 1 - max_memory) (mem @ [UserTurn u m])"
  by (simp add: remember_user_def last_n_def max_memory_def Let_def)

lemma length_remember_user:
  "length (remember_user mem u m) = min max_memory (length mem + 1)"
  by (simp add: remember_user_def last_n_def max_memory_def Let_def)

lemma remember_user_nonempty: "remember_user mem u m \<noteq> []"
  using length_remember_user[of mem u m] by (auto simp: max_memory_def)

lemma last_remember_user: "last (remember_user mem u m) = UserTurn u m"
  by (simp add: remember_user_drop max_memory_def)

lemma last_n_window_remember_user:
  "last_n 10 (remember_user mem u m) = drop (length mem + 1 - 10) (mem @ [UserTurn u m])"
proof -
  let ?xs = "mem @ [UserTurn u m]"
  let ?k = "length mem + 1 - max_memory"
  have "last_n 10 (remember_user mem u m) = drop (length (drop ?k ?xs) - 10) (drop ?k ?xs)"
    by (simp only: remember_user_drop last_n_def) simp
  also have "\<dots> = drop (length (drop ?k ?xs) - 10 + ?k) ?xs"
    by (simp only: drop_drop)
  also have "length (drop ?k ?xs) - 10 + ?k = length mem + 1 - 10"
    by (simp add: max_memory_def)
  finally show ?thesis .
qed

lemma respond_raised:
  assumes "provider a = ''anthropic'' \<or> provider a = ''openai''"
  shows "respond (Inl e) a c u m g =
     (fallback_text,
      a\<lparr>memory := (memory a)(c := remember_user (memory a c) u m),
        requests := requests a @
          [if provider a = ''anthropic''
           then anthropic_request a (system_prompt g) (build_messages (remember_user (memory a c) u m))
           else openai_request a (system_prompt g) (build_messages (remember_user (memory a c) u m))],
        error_log := error_log a @ [e]\<rparr>)"
  using assms
  by (auto simp: respond_def Let_def call_anthropic_def call_openai_def
      anthropic_request_def openai_request_def)

lemma respond_returned:
  assumes "provider a = ''anthropic'' \<or> provider a = ''openai''"
  shows "respond (Inr r) a c u m g =
     (r,
      a\<lparr>memory := (memory a)(c := remember_user (memory a c) u m @ [AssistantTurn r]),
        requests := requests a @
          [if provider a = ''anthropic''
           then anthropic_request a (system_prompt g) (build_messages (remember_user (memory a c) u m))
           else openai_request a (system_prompt g) (build_messages (remember_user (memory a c) u m))]\<rparr>)"
  using assms
  by (auto simp: respond_def Let_def call_anthropic_def call_openai_def
      anthropic_request_def openai_request_def)

lemma respond_unknown:
  assumes "provider a \<noteq> ''anthropic''" and "provider a \<noteq> ''openai''"
  shows "respond net a c u m g =
     (unknown_provider_text,
      a\<lparr>memory := (memory a)(c := remember_user (memory a c) u m @ [AssistantTurn unknown_provider_text])\<rparr>)"
  using assms by (simp add: respond_def Let_def)

lemma length_build_messages: "length (build_messages mem) = min 10 (length mem)"
  by (simp add: build_messages_def last_n_def)

lemma nth_build_messages:
  "i < length (build_messages mem) \<Longrightarrow>
   build_messages mem ! i = format_turn (mem ! (length mem - length (build_messages mem) + i))"
  by (auto simp: build_messages_def last_n_def min_def split: if_splits)

lemma respond_memory_length:
  "length (memory (snd (respond (Inr r) a c u m g)) c) = min (max_memory + 1) (length (memory a c) + 2)"
  by (auto simp: respond_def Let_def call_anthropic_def call_openai_def length_remember_user
      max_memory_def)

lemma respond_memory_bound:
  "length (memory (snd (respond net a c u m g)) c) \<le> max_memory + 1"
  by (cases net)
     (auto simp: respond_def Let_def call_anthropic_def call_openai_def length_remember_user)

lemma remember_user_snoc:
  "remember_user mem u m @ [x] = drop (length mem + 1 - max_memory) (mem @ [UserTurn u m, x])"
proof -
  have "length mem + 1 - max_memory \<le> length (mem @ [UserTurn u m])" by simp
  then have "drop (length mem + 1 - max_memory) ((mem @ [UserTurn u m]) @ [x])
      = drop (length mem + 1 - max_memory) (mem @ [UserTurn u m]) @ [x]"
    by (simp only: drop_append) simp
  then show ?thesis by (simp add: remember_user_drop)
qed

lemma respond_memory_fifo:
  "memory (snd (respond (Inr r) a c u m g)) c
     = drop (length (memory a c) + 1 - max_memory)
         (memory a c @ [UserTurn u m,
            AssistantTurn (if provider a = ''anthropic'' \<or> provider a = ''openai'' then r
                           else unknown_provider_text)])"
  by (auto simp: respond_def Let_def call_anthropic_def call_openai_def remember_user_snoc)

lemma respond_all_memory_length:
  "0 < k \<Longrightarrow>
   length (memory (respond_all (replicate k (Inr r)) a c u m g) c)
     = min (max_memory + 1) (length (memory a c) + 2 * k)"
proof (induction k arbitrary: a)
  case 0
  then show ?case by simp
next
  case (Suc k)
  show ?case
  proof (cases "k = 0")
    case True
    then show ?thesis by (simp add: respond_memory_length)
  next
    case False
    then have "0 < k" by simp
    from Suc.IH[OF this, of "snd (respond (Inr r) a c u m g)"]
    show ?thesis by (simp add: respond_memory_length)
  qed
qed

text \<open>
  Claim C3. The claim says the stored list never exceeds the cap of 20 between \<open>respond\<close>
  calls. The cut to \<open>max_memory\<close> is made after the user turn is stored, and not after the
  assistant turn: eleven answered calls for one chat leave 21 turns in its list.
\<close>

theorem memory_exceeds_cap:
  "length (memory (respond_all (replicate 11 (Inr ''ok'')) (new_ai_chat ''anthropic'' ''key'' ''m'')
             5 ''Ann'' ''hi'' ''G'') 5) = 21
   \<and> max_memory = 20"
proof -
  have "length (memory (respond_all (replicate 11 (Inr ''ok'')) (new_ai_chat ''anthropic'' ''key'' ''m'')
             5 ''Ann'' ''hi'' ''G'') 5)
        = min (max_memory + 1) (length (memory (new_ai_chat ''anthropic'' ''key'' ''m'') 5) + 2 * 11)"
    by (rule respond_all_memory_length) simp
  then show ?thesis by (simp add: max_memory_def new_ai_chat_def)
qed

text \<open>
  Claim C4. When the provider call raises, whatever the exception, \<open>respond\<close> returns the
  fallback text. The chat's list is then the old list with the user turn appended, cut at the
  front to the cap: the user turn is its last entry and no assistant turn was added. The lists
  of other chats are untouched and the exception is logged.
\<close>

theorem respond_provider_failure:
  assumes "provider a = ''anthropic'' \<or> provider a = ''openai''"
  shows "fst (respond (Inl e) a chat_id user_name message group_name) = fallback_text
     \<and> memory (snd (respond (Inl e) a chat_id user_name message group_name)) chat_id
         = drop (length (memory a chat_id) + 1 - max_memory) (memory a chat_id @ [UserTurn user_name message])
     \<and> last (memory (snd (respond (Inl e) a chat_id user_name message group_name)) chat_id)
         = UserTurn user_name message
     \<and> (other \<noteq> chat_id \<longrightarrow>
          memory (snd (respond (Inl e) a chat_id user_name message group_name)) other = memory a other)
     \<and> error_log (snd (respond (Inl e) a chat_id user_name message group_name)) = error_log a @ [e]"
  by (simp add: respond_raised[OF assms] last_remember_user)
     (simp add: remember_user_drop)

theorem respond_provider_failure_witness:
  "(provider (new_ai_chat ''anthropic'' ''key'' ''m'') = ''anthropic''
      \<or> provider (new_ai_chat ''anthropic'' ''key'' ''m'') = ''openai'')
   \<and> fst (respond (Inl URLError) (new_ai_chat ''anthropic'' ''key'' ''m'') 5 ''Ann'' ''hi'' ''G'')
       = fallback_text
   \<and> memory (snd (respond (Inl URLError) (new_ai_chat ''anthropic'' ''key'' ''m'') 5 ''Ann'' ''hi'' ''G'')) 5
       = [UserTurn ''Ann'' ''hi'']"
proof -
  have h: "provider (new_ai_chat ''anthropic'' ''key'' ''m'') = ''anthropic''
      \<or> provider (new_ai_chat ''anthropic'' ''key'' ''m'') = ''openai''"
    by (simp add: new_ai_chat_def)
  have m0: "memory (new_ai_chat ''anthropic'' ''key'' ''m'') 5 = []"
    by (simp add: new_ai_chat_def)
  show ?thesis
    using h respond_provider_failure [OF h, of URLError 5 "''Ann''" "''hi''" "''G''" 6]
    by (simp add: m0 max_memory_def)
qed

text \<open>
  Claim C6. With one of the two supported providers, \<open>respond\<close> issues one request. Its
  message list is, after the system entry that the OpenAI shape puts first, the list built
  from the chat's stored turns (the new user turn included): as many entries as there are
  stored turns but at most 10, entry \<open>i\<close> made from the turn that is the same distance from
  the end of the stored list, so the order is chronological and the newest turn is last. A
  user turn becomes \<open>[name]: text\<close> with role \<open>user\<close>, an assistant turn its text with role
  \<open>assistant\<close>.
\<close>

theorem respond_sends_recent_turns:
  assumes "provider a = ''anthropic'' \<or> provider a = ''openai''"
  shows "let mem = remember_user (memory a chat_id) user_name message;
             msgs = build_messages mem
         in (\<exists>req. requests (snd (respond net a chat_id user_name message group_name))
                      = requests a @ [req]
                \<and> body_messages req =
                     (if provider a = ''anthropic'' then msgs
                      else \<lparr>role = ''system'', content = system_prompt group_name\<rparr> # msgs))
          \<and> length msgs = min 10 (length mem)
          \<and> (\<forall>i < length msgs.
                case mem ! (length mem - length msgs + i) of
                  UserTurn n t \<Rightarrow> msgs ! i = \<lparr>role = ''user'', content = ''['' @ n @ '']: '' @ t\<rparr>
                | AssistantTurn t \<Rightarrow> msgs ! i = \<lparr>role = ''assistant'', content = t\<rparr>)
          \<and> last msgs = \<lparr>role = ''user'', content = ''['' @ user_name @ '']: '' @ message\<rparr>"
proof -
  let ?mem = "remember_user (memory a chat_id) user_name message"
  let ?msgs = "build_messages ?mem"
  have req: "\<exists>req. requests (snd (respond net a chat_id user_name message group_name))
                      = requests a @ [req]
                \<and> body_messages req =
                     (if provider a = ''anthropic'' then ?msgs
                      else \<lparr>role = ''system'', content = system_prompt group_name\<rparr> # ?msgs)"
  proof (cases net)
    case (Inl e)
    show ?thesis unfolding Inl respond_raised[OF assms]
      by (simp add: anthropic_request_def openai_request_def)
  next
    case (Inr r)
    show ?thesis unfolding Inr respond_returned[OF assms]
      by (simp add: anthropic_request_def openai_request_def)
  qed
  have len: "length ?msgs = min 10 (length ?mem)" by (rule length_build_messages)
  have nth: "\<forall>i < length ?msgs.
                case ?mem ! (length ?mem - length ?msgs + i) of
                  UserTurn n t \<Rightarrow> ?msgs ! i = \<lparr>role = ''user'', content = ''['' @ n @ '']: '' @ t\<rparr>
                | AssistantTurn t \<Rightarrow> ?msgs ! i = \<lparr>role = ''assistant'', content = t\<rparr>"
  proof (intro allI impI)
    fix i assume i: "i < length ?msgs"
    show "case ?mem ! (length ?mem - length ?msgs + i) of
                  UserTurn n t \<Rightarrow> ?msgs ! i = \<lparr>role = ''user'', content = ''['' @ n @ '']: '' @ t\<rparr>
                | AssistantTurn t \<Rightarrow> ?msgs ! i = \<lparr>role = ''assistant'', content = t\<rparr>"
      using nth_build_messages[OF i]
      by (cases "?mem ! (length ?mem - length ?msgs + i)") simp_all
  qed
  have ne: "?msgs \<noteq> []"
    using len remember_user_nonempty[of "memory a chat_id" user_name message]
    by (cases ?mem) auto
  have "last ?msgs = format_turn (last (last_n 10 ?mem))"
    using ne by (simp add: build_messages_def last_map)
  also have "last (last_n 10 ?mem) = last ?mem"
    using remember_user_nonempty[of "memory a chat_id" user_name message]
    by (simp add: last_n_def last_drop)
  finally have lst: "last ?msgs = \<lparr>role = ''user'', content = ''['' @ user_name @ '']: '' @ message\<rparr>"
    by (simp add: last_remember_user)
  from req len nth lst show ?thesis by (simp only: Let_def)
qed

theorem respond_sends_recent_turns_witness:
  "(provider (new_ai_chat ''openai'' ''key'' ''m'') = ''anthropic''
      \<or> provider (new_ai_chat ''openai'' ''key'' ''m'') = ''openai'')
   \<and> (\<exists>req. requests (snd (respond (Inr ''ok'')
                ((new_ai_chat ''openai'' ''key'' ''m'')
                   \<lparr>memory := (\<lambda>_. [UserTurn ''A'' ''1'', AssistantTurn ''2'', UserTurn ''A'' ''3'',
                       AssistantTurn ''4'', UserTurn ''A'' ''5'', AssistantTurn ''6'', UserTurn ''A'' ''7'',
                       AssistantTurn ''8'', UserTurn ''A'' ''9'', AssistantTurn ''10''])\<rparr>)
                5 ''Ann'' ''hi'' ''G'')) = [req]
         \<and> body_messages req =
            [\<lparr>role = ''system'', content = system_prompt ''G''\<rparr>,
             \<lparr>role = ''assistant'', content = ''2''\<rparr>, \<lparr>role = ''user'', content = ''[A]: 3''\<rparr>,
             \<lparr>role = ''assistant'', content = ''4''\<rparr>, \<lparr>role = ''user'', content = ''[A]: 5''\<rparr>,
             \<lparr>role = ''assistant'', content = ''6''\<rparr>, \<lparr>role = ''user'', content = ''[A]: 7''\<rparr>,
             \<lparr>role = ''assistant'', content = ''8''\<rparr>, \<lparr>role = ''user'', content = ''[A]: 9''\<rparr>,
             \<lparr>role = ''assistant'', content = ''10''\<rparr>, \<lparr>role = ''user'', content = ''[Ann]: hi''\<rparr>])"
proof -
  let ?a = "(new_ai_chat ''openai'' ''key'' ''m'')
                   \<lparr>memory := (\<lambda>_. [UserTurn ''A'' ''1'', AssistantTurn ''2'', UserTurn ''A'' ''3'',
                       AssistantTurn ''4'', UserTurn ''A'' ''5'', AssistantTurn ''6'', UserTurn ''A'' ''7'',
                       AssistantTurn ''8'', UserTurn ''A'' ''9'', AssistantTurn ''10''])\<rparr>"
  have h: "provider ?a = ''anthropic'' \<or> provider ?a = ''openai''"
    by (simp add: new_ai_chat_def)
  have b: "build_messages (remember_user (memory ?a 5) ''Ann'' ''hi'') =
            [\<lparr>role = ''assistant'', content = ''2''\<rparr>, \<lparr>role = ''user'', content = ''[A]: 3''\<rparr>,
             \<lparr>role = ''assistant'', content = ''4''\<rparr>, \<lparr>role = ''user'', content = ''[A]: 5''\<rparr>,
             \<lparr>role = ''assistant'', content = ''6''\<rparr>, \<lparr>role = ''user'', content = ''[A]: 7''\<rparr>,
             \<lparr>role = ''assistant'', content = ''8''\<rparr>, \<lparr>role = ''user'', content = ''[A]: 9''\<rparr>,
             \<lparr>role = ''assistant'', content = ''10''\<rparr>, \<lparr>role = ''user'', content = ''[Ann]: hi''\<rparr>]"
    by (simp add: build_messages_def remember_user_def last_n_def max_memory_def Let_def)
  have p: "provider ?a = ''openai''" "requests ?a = []" by (simp_all add: new_ai_chat_def)
  from respond_sends_recent_turns [OF h, of 5 "''Ann''" "''hi''" "Inr ''ok''" "''G''"]
  have "\<exists>req. requests (snd (respond (Inr ''ok'') ?a 5 ''Ann'' ''hi'' ''G'')) = requests ?a @ [req]
          \<and> body_messages req =
              (if provider ?a = ''anthropic'' then build_messages (remember_user (memory ?a 5) ''Ann'' ''hi'')
               else \<lparr>role = ''system'', content = system_prompt ''G''\<rparr>
                      # build_messages (remember_user (memory ?a 5) ''Ann'' ''hi''))"
    by (simp only: Let_def)
  then have "\<exists>req. requests (snd (respond (Inr ''ok'') ?a 5 ''Ann'' ''hi'' ''G'')) = [req]
          \<and> body_messages req =
              \<lparr>role = ''system'', content = system_prompt ''G''\<rparr>
                      # build_messages (remember_user (memory ?a 5) ''Ann'' ''hi'')"
    unfolding p by simp
  then show ?thesis unfolding b using p(1) by simp
qed

text \<open>
  Claim C10. When the configured provider is neither \<open>anthropic\<close> nor \<open>openai\<close>, \<open>respond\<close>
  issues no request and logs no error, returns the unknown-provider text, and stores that
  text as an assistant turn right after the user turn. The message list that the next call for
  the chat builds contains the text as an assistant message.
\<close>

theorem respond_unknown_provider:
  assumes "provider a \<noteq> ''anthropic''" and "provider a \<noteq> ''openai''"
  shows "fst (respond net a chat_id user_name message group_name) = unknown_provider_text
     \<and> requests (snd (respond net a chat_id user_name message group_name)) = requests a
     \<and> error_log (snd (respond net a chat_id user_name message group_name)) = error_log a
     \<and> memory (snd (respond net a chat_id user_name message group_name)) chat_id
         = drop (length (memory a chat_id) + 1 - max_memory)
             (memory a chat_id @ [UserTurn user_name message, AssistantTurn unknown_provider_text])
     \<and> \<lparr>role = ''assistant'', content = unknown_provider_text\<rparr>
         \<in> set (build_messages
                 (remember_user (memory (snd (respond net a chat_id user_name message group_name)) chat_id)
                    user_name' message'))"
proof -
  let ?r = "remember_user (memory a chat_id) user_name message"
  let ?m = "?r @ [AssistantTurn unknown_provider_text]"
  have mem: "memory (snd (respond net a chat_id user_name message group_name)) chat_id = ?m"
    by (simp add: respond_unknown[OF assms])
  have win: "last_n 10 (remember_user ?m user_name' message')
      = drop (length ?m + 1 - 10) (?m @ [UserTurn user_name' message'])"
    by (rule last_n_window_remember_user)
  have "length ?r \<le> max_memory" by (simp add: length_remember_user)
  have idx: "(?m @ [UserTurn user_name' message']) ! length ?r = AssistantTurn unknown_provider_text"
    by (simp add: nth_append)
  have "AssistantTurn unknown_provider_text \<in> set (drop (length ?m + 1 - 10) (?m @ [UserTurn user_name' message']))"
    unfolding in_set_conv_nth
  proof (intro exI conjI)
    show "length ?r - (length ?m + 1 - 10) < length (drop (length ?m + 1 - 10) (?m @ [UserTurn user_name' message']))"
      by simp
    show "drop (length ?m + 1 - 10) (?m @ [UserTurn user_name' message']) ! (length ?r - (length ?m + 1 - 10))
        = AssistantTurn unknown_provider_text"
      using idx by (simp del: nth_append_length add: nth_append)
  qed
  then have "format_turn (AssistantTurn unknown_provider_text)
      \<in> set (build_messages (remember_user ?m user_name' message'))"
    unfolding build_messages_def win by (simp only: set_map) (rule imageI)
  then have ctx: "\<lparr>role = ''assistant'', content = unknown_provider_text\<rparr>
      \<in> set (build_messages (remember_user ?m user_name' message'))"
    by simp
  show ?thesis
    unfolding mem using ctx
    by (simp add: respond_unknown[OF assms] remember_user_snoc)
qed

theorem respond_unknown_provider_witness:
  "provider (new_ai_chat ''gemini'' ''key'' ''m'') \<noteq> ''anthropic''
   \<and> provider (new_ai_chat ''gemini'' ''key'' ''m'') \<noteq> ''openai''
   \<and> fst (respond (Inl URLError) (new_ai_chat ''gemini'' ''key'' ''m'') 5 ''Ann'' ''hi'' ''G'')
       = ''Unknown AI provider configured.''
   \<and> requests (snd (respond (Inl URLError) (new_ai_chat ''gemini'' ''key'' ''m'') 5 ''Ann'' ''hi'' ''G'')) = []
   \<and> memory (snd (respond (Inl URLError) (new_ai_chat ''gemini'' ''key'' ''m'') 5 ''Ann'' ''hi'' ''G'')) 5
       = [UserTurn ''Ann'' ''hi'', AssistantTurn ''Unknown AI provider configured.'']"
proof -
  have h1: "provider (new_ai_chat ''gemini'' ''key'' ''m'') \<noteq> ''anthropic''"
    and h2: "provider (new_ai_chat ''gemini'' ''key'' ''m'') \<noteq> ''openai''"
    by (simp_all add: new_ai_chat_def)
  have m0: "memory (new_ai_chat ''gemini'' ''key'' ''m'') 5 = []"
    and r0: "requests (new_ai_chat ''gemini'' ''key'' ''m'') = []"
    by (simp_all add: new_ai_chat_def)
  show ?thesis
    using h1 h2 respond_unknown_provider [OF h1 h2, of "Inl URLError" 5 "''Ann''" "''hi''" "''G''" "''Bob''" "''again''"]
    by (simp add: m0 r0 max_memory_def unknown_provider_text_def)
qed

lemma handle_message_group_exhausted:
  assumes na: "\<not> fst (can_use (free_limit e) (today_at_check e) (tracker w) (msg_chat_id m))"
    and body: "msg_text m = Some body" "body \<noteq> []"
    and grp: "msg_chat_type m \<noteq> ''private''"
    and addr: "(\<exists>u. bot_username e = Some u \<and> u \<noteq> [] \<and> contains (''@'' @ u) body)
               \<or> msg_reply_to_id m = Some (bot_id e)"
  shows "handle_message e w m =
           w\<lparr>outbox := outbox w @ [Reply (msg_chat_id m) (group_limit_notice (free_limit e))]\<rparr>"
proof -
  obtain r where cu: "can_use (free_limit e) (today_at_check e) (tracker w) (msg_chat_id m) = (False, r)"
    using na by (cases "can_use (free_limit e) (today_at_check e) (tracker w) (msg_chat_id m)") auto
  from addr show ?thesis
  proof
    assume "\<exists>u. bot_username e = Some u \<and> u \<noteq> [] \<and> contains (''@'' @ u) body"
    then obtain u where "bot_username e = Some u" "u \<noteq> []" "contains (''@'' @ u) body" by blast
    then show ?thesis using body grp cu by (simp add: handle_message_def Let_def)
  next
    assume "msg_reply_to_id m = Some (bot_id e)"
    then show ?thesis using body grp cu by (simp add: handle_message_def Let_def)
  qed
qed

lemma handle_message_private_exhausted:
  assumes na: "\<not> fst (can_use (free_limit e) (today_at_check e) (tracker w) (msg_chat_id m))"
    and body: "msg_text m = Some body" "body \<noteq> []"
    and prv: "msg_chat_type m = ''private''"
    and nc: "\<not> startswith body ''/''"
  shows "handle_message e w m =
           w\<lparr>outbox := outbox w @ [Answer (msg_chat_id m) private_limit_notice]\<rparr>"
proof -
  obtain r where cu: "can_use (free_limit e) (today_at_check e) (tracker w) (msg_chat_id m) = (False, r)"
    using na by (cases "can_use (free_limit e) (today_at_check e) (tracker w) (msg_chat_id m)") auto
  show ?thesis using body prv nc cu by (simp add: handle_message_def Let_def)
qed

lemma cmd_ask_exhausted:
  assumes na: "\<not> fst (can_use (free_limit e) (today_at_check e) (tracker w) (msg_chat_id m))"
    and body: "msg_text m = Some body"
    and q: "strip (replace_first ''/ask'' [] body) \<noteq> []"
  shows "cmd_ask e w m =
           Inr (w\<lparr>outbox := outbox w @ [Answer (msg_chat_id m) (ask_limit_notice (free_limit e))]\<rparr>)"
proof -
  obtain r where cu: "can_use (free_limit e) (today_at_check e) (tracker w) (msg_chat_id m) = (False, r)"
    using na by (cases "can_use (free_limit e) (today_at_check e) (tracker w) (msg_chat_id m)") auto
  show ?thesis using body q cu by (simp add: cmd_ask_def Let_def)
qed

lemma handle_message_exhausted_frame:
  assumes na: "\<not> fst (can_use (free_limit e) (today_at_check e) (tracker w) (msg_chat_id m))"
  shows "tracker (handle_message e w m) = tracker w \<and> ai (handle_message e w m) = ai w"
proof -
  obtain r where cu: "can_use (free_limit e) (today_at_check e) (tracker w) (msg_chat_id m) = (False, r)"
    using na by (cases "can_use (free_limit e) (today_at_check e) (tracker w) (msg_chat_id m)") auto
  show ?thesis
    using cu by (cases "msg_text m") (simp_all add: handle_message_def Let_def)
qed

lemma cmd_ask_exhausted_frame:
  assumes na: "\<not> fst (can_use (free_limit e) (today_at_check e) (tracker w) (msg_chat_id m))"
    and r: "cmd_ask e w m = Inr w'"
  shows "tracker w' = tracker w \<and> ai w' = ai w"
proof -
  obtain r where cu: "can_use (free_limit e) (today_at_check e) (tracker w) (msg_chat_id m) = (False, r)"
    using na by (cases "can_use (free_limit e) (today_at_check e) (tracker w) (msg_chat_id m)") auto
  show ?thesis
    using cu r by (cases "msg_text m") (auto simp: cmd_ask_def Let_def split: if_splits)
qed

text \<open>
  \<open>/ask\<close> with nothing but whitespace after it, a no-break space (U+00A0) included, has an
  empty question: \<open>cmd_ask\<close> sends the usage hint and returns before it looks at the quota.
\<close>

lemma strip_blank_question:
  "strip (replace_first ''/ask'' [] (''/ask '' @ [CHR 0xC2, CHR 0xA0] @ '' '')) = []"
  by (simp add: strip_def whitespace_def strip_front.simps startswith_def)

lemma cmd_ask_blank_question:
  assumes "msg_text m = Some body" and "strip (replace_first ''/ask'' [] body) = []"
  shows "cmd_ask e w m =
           Inr (w\<lparr>outbox := outbox w @ [Answer (msg_chat_id m) ''Usage: /ask <your question>'']\<rparr>)"
  using assms by (simp add: cmd_ask_def Let_def)

lemma cmd_ask_no_break_space:
  "cmd_ask e w \<lparr>msg_text = Some (''/ask '' @ [CHR 0xC2, CHR 0xA0] @ '' ''), msg_chat_id = 7,
              msg_chat_type = ''group'', msg_chat_title = Some ''G'', msg_full_name = ''Ann'',
              msg_reply_to_id = None\<rparr>
     = Inr (w\<lparr>outbox := outbox w @ [Answer 7 ''Usage: /ask <your question>'']\<rparr>)"
proof -
  let ?m = "\<lparr>msg_text = Some (''/ask '' @ [CHR 0xC2, CHR 0xA0] @ '' ''), msg_chat_id = 7,
              msg_chat_type = ''group'', msg_chat_title = Some ''G'', msg_full_name = ''Ann'',
              msg_reply_to_id = None\<rparr>"
  have "msg_text ?m = Some (''/ask '' @ [CHR 0xC2, CHR 0xA0] @ '' '')" by simp
  from cmd_ask_blank_question[OF this strip_blank_question, of e w]
  show ?thesis by simp
qed

text \<open>
  Claim C9. When \<open>can_use\<close> does not allow the chat, neither handler changes the usage tracker
  (its counters and its files) or the AI object (its memory and the requests it issued). A
  group message that mentions the bot or replies to it gets the group notice as a reply, a
  private text that is not a command gets the private notice, and \<open>/ask\<close> with a question
  (what \<open>strip\<close> leaves of the text after \<open>/ask\<close> is not empty) gets the \<open>/ask\<close> notice;
  nothing else is sent.
\<close>

theorem quota_exhausted_stops:
  assumes "\<not> fst (can_use (free_limit e) (today_at_check e) (tracker w) (msg_chat_id m))"
  shows "tracker (handle_message e w m) = tracker w
     \<and> ai (handle_message e w m) = ai w
     \<and> (cmd_ask e w m = Inr w' \<longrightarrow> tracker w' = tracker w \<and> ai w' = ai w)
     \<and> (msg_text m = Some body \<and> body \<noteq> [] \<and> msg_chat_type m \<noteq> ''private''
          \<and> ((\<exists>u. bot_username e = Some u \<and> u \<noteq> [] \<and> contains (''@'' @ u) body)
               \<or> msg_reply_to_id m = Some (bot_id e)) \<longrightarrow>
        handle_message e w m =
          w\<lparr>outbox := outbox w @ [Reply (msg_chat_id m) (group_limit_notice (free_limit e))]\<rparr>)
     \<and> (msg_text m = Some body \<and> body \<noteq> [] \<and> msg_chat_type m = ''private''
          \<and> \<not> startswith body ''/'' \<longrightarrow>
        handle_message e w m =
          w\<lparr>outbox := outbox w @ [Answer (msg_chat_id m) private_limit_notice]\<rparr>)
     \<and> (msg_text m = Some body \<and> strip (replace_first ''/ask'' [] body) \<noteq> [] \<longrightarrow>
        cmd_ask e w m =
          Inr (w\<lparr>outbox := outbox w @ [Answer (msg_chat_id m) (ask_limit_notice (free_limit e))]\<rparr>))"
  using handle_message_exhausted_frame[OF assms] cmd_ask_exhausted_frame[OF assms, of w']
    handle_message_group_exhausted[OF assms, of body] handle_message_private_exhausted[OF assms, of body]
    cmd_ask_exhausted[OF assms, of body]
  by blast

theorem quota_exhausted_stops_witness:
  "\<not> fst (can_use 2 ''2024-05-01'' (record_all [(7, ''2024-05-01''), (7, ''2024-05-01'')] fresh_tracker) 7)
   \<and> handle_message
       \<lparr>free_limit = 2, today_at_check = ''2024-05-01'', today_at_record = ''2024-05-01'',
        bot_username = Some ''gendolf_bot'', bot_id = 99, provider_outcome = Inr ''ok''\<rparr>
       \<lparr>tracker = record_all [(7, ''2024-05-01''), (7, ''2024-05-01'')] fresh_tracker,
        ai = new_ai_chat ''anthropic'' ''key'' ''m'', outbox = []\<rparr>
       \<lparr>msg_text = Some ''@gendolf_bot hello'', msg_chat_id = 7, msg_chat_type = ''group'',
        msg_chat_title = Some ''G'', msg_full_name = ''Ann'', msg_reply_to_id = None\<rparr>
     = \<lparr>tracker = record_all [(7, ''2024-05-01''), (7, ''2024-05-01'')] fresh_tracker,
        ai = new_ai_chat ''anthropic'' ''key'' ''m'',
        outbox = [Reply 7 (group_limit_notice 2)]\<rparr>
   \<and> strip (replace_first ''/ask'' [] ''/ask  why? '') = ''why?''
   \<and> cmd_ask
       \<lparr>free_limit = 2, today_at_check = ''2024-05-01'', today_at_record = ''2024-05-01'',
        bot_username = Some ''gendolf_bot'', bot_id = 99, provider_outcome = Inr ''ok''\<rparr>
       \<lparr>tracker = record_all [(7, ''2024-05-01''), (7, ''2024-05-01'')] fresh_tracker,
        ai = new_ai_chat ''anthropic'' ''key'' ''m'', outbox = []\<rparr>
       \<lparr>msg_text = Some ''/ask  why? '', msg_chat_id = 7, msg_chat_type = ''group'',
        msg_chat_title = Some ''G'', msg_full_name = ''Ann'', msg_reply_to_id = None\<rparr>
     = Inr \<lparr>tracker = record_all [(7, ''2024-05-01''), (7, ''2024-05-01'')] fresh_tracker,
        ai = new_ai_chat ''anthropic'' ''key'' ''m'',
        outbox = [Answer 7 (ask_limit_notice 2)]\<rparr>"
proof -
  let ?e = "\<lparr>free_limit = 2, today_at_check = ''2024-05-01'', today_at_record = ''2024-05-01'',
        bot_username = Some ''gendolf_bot'', bot_id = 99, provider_outcome = Inr ''ok''\<rparr>"
  let ?w = "\<lparr>tracker = record_all [(7, ''2024-05-01''), (7, ''2024-05-01'')] fresh_tracker,
        ai = new_ai_chat ''anthropic'' ''key'' ''m'', outbox = []\<rparr>"
  let ?m = "\<lparr>msg_text = Some ''@gendolf_bot hello'', msg_chat_id = 7, msg_chat_type = ''group'',
        msg_chat_title = Some ''G'', msg_full_name = ''Ann'', msg_reply_to_id = None\<rparr>"
  let ?q = "\<lparr>msg_text = Some ''/ask  why? '', msg_chat_id = 7, msg_chat_type = ''group'',
        msg_chat_title = Some ''G'', msg_full_name = ''Ann'', msg_reply_to_id = None\<rparr>"
  have cu: "can_use 2 ''2024-05-01'' (record_all [(7, ''2024-05-01''), (7, ''2024-05-01'')] fresh_tracker) 7
      = (False, 0)"
    by (simp add: can_use_def Let_def pro_groups_record_use usage_record_use)
       (simp add: fresh_tracker_def usage_get_def)
  have h: "\<not> fst (can_use (free_limit ?e) (today_at_check ?e) (tracker ?w) (msg_chat_id ?m))"
    using cu by simp
  have hq: "\<not> fst (can_use (free_limit ?e) (today_at_check ?e) (tracker ?w) (msg_chat_id ?q))"
    using cu by simp
  have c: "contains (''@'' @ ''gendolf_bot'') ''@gendolf_bot hello''"
    by (simp add: startswith_def)
  have prem: "msg_text ?m = Some ''@gendolf_bot hello'' \<and> ''@gendolf_bot hello'' \<noteq> []
      \<and> msg_chat_type ?m \<noteq> ''private''
      \<and> ((\<exists>u. bot_username ?e = Some u \<and> u \<noteq> [] \<and> contains (''@'' @ u) ''@gendolf_bot hello'')
           \<or> msg_reply_to_id ?m = Some (bot_id ?e))"
    using c by simp
  note r = quota_exhausted_stops [OF h, of ?w "''@gendolf_bot hello''"]
  from r have g: "msg_text ?m = Some ''@gendolf_bot hello'' \<and> ''@gendolf_bot hello'' \<noteq> []
      \<and> msg_chat_type ?m \<noteq> ''private''
      \<and> ((\<exists>u. bot_username ?e = Some u \<and> u \<noteq> [] \<and> contains (''@'' @ u) ''@gendolf_bot hello'')
           \<or> msg_reply_to_id ?m = Some (bot_id ?e)) \<longrightarrow>
      handle_message ?e ?w ?m =
        ?w\<lparr>outbox := outbox ?w @ [Reply (msg_chat_id ?m) (group_limit_notice (free_limit ?e))]\<rparr>"
    by (elim conjE)
  from g prem have "handle_message ?e ?w ?m =
        ?w\<lparr>outbox := outbox ?w @ [Reply (msg_chat_id ?m) (group_limit_notice (free_limit ?e))]\<rparr>"
    by (rule mp)
  then have grp: "handle_message ?e ?w ?m =
      \<lparr>tracker = record_all [(7, ''2024-05-01''), (7, ''2024-05-01'')] fresh_tracker,
        ai = new_ai_chat ''anthropic'' ''key'' ''m'',
        outbox = [Reply 7 (group_limit_notice 2)]\<rparr>"
    by (simp only: world.simps message.simps env.simps append_Nil)
  have st: "strip (replace_first ''/ask'' [] ''/ask  why? '') = ''why?''"
    by (simp add: strip_def whitespace_def strip_front.simps startswith_def)
  have premq: "msg_text ?q = Some ''/ask  why? '' \<and> strip (replace_first ''/ask'' [] ''/ask  why? '') \<noteq> []"
    unfolding st by simp
  note rq = quota_exhausted_stops [OF hq, of ?w "''/ask  why? ''"]
  from rq have gq: "msg_text ?q = Some ''/ask  why? '' \<and> strip (replace_first ''/ask'' [] ''/ask  why? '') \<noteq> [] \<longrightarrow>
      cmd_ask ?e ?w ?q =
        Inr (?w\<lparr>outbox := outbox ?w @ [Answer (msg_chat_id ?q) (ask_limit_notice (free_limit ?e))]\<rparr>)"
    by (elim conjE)
  from gq premq have "cmd_ask ?e ?w ?q =
        Inr (?w\<lparr>outbox := outbox ?w @ [Answer (msg_chat_id ?q) (ask_limit_notice (free_limit ?e))]\<rparr>)"
    by (rule mp)
  then have ask: "cmd_ask ?e ?w ?q =
      Inr \<lparr>tracker = record_all [(7, ''2024-05-01''), (7, ''2024-05-01'')] fresh_tracker,
        ai = new_ai_chat ''anthropic'' ''key'' ''m'',
        outbox = [Answer 7 (ask_limit_notice 2)]\<rparr>"
    by (simp only: world.simps message.simps env.simps append_Nil)
  have nu: "\<not> fst (can_use 2 ''2024-05-01'' (record_all [(7, ''2024-05-01''), (7, ''2024-05-01'')] fresh_tracker) 7)"
    unfolding cu by simp
  from nu grp st ask show ?thesis by (intro conjI)
qed

end
